theory Spec2Isabelle
  imports Complex_Main
begin

section \<open>Quiz domain types (src/domain/quiz/types.ts)\<close>

text \<open>
  The TypeScript \<open>number\<close> fields that hold scores, counts and rounded percentages are
  modelled as \<open>int\<close>: the answer weights of a question bank are integers and every sum
  of them is exact. The intermediate quotients of \<open>calculateConfidence\<close> and
  \<open>getProgress\<close> are modelled as exact rationals (\<open>rat\<close>) in place of IEEE doubles.
  \<open>Date.now()\<close> is an input of \<open>answerQuestion\<close>.
\<close>

datatype Archetype = TJ | TP | FJ | FP | Neutral

datatype QuestionDimension = T_F | J_P

record Answer =
  answer_id :: string
  answer_text :: string
  scoreTF :: int
  scoreJP :: int

record Question =
  question_id :: string
  question_text :: string
  dimension :: QuestionDimension
  answers :: "Answer list"

record QuizResponse =
  questionId :: string
  answerId :: string
  timestamp :: int

record QuizSession =
  responses :: "QuizResponse list"
  currentScoreTF :: int
  currentScoreJP :: int
  isComplete :: bool
  archetype :: "Archetype option"
  confidence :: int

record ArchetypeResult =
  result_archetype :: Archetype
  result_confidence :: int
  result_scoreTF :: int
  result_scoreJP :: int
  explanation :: string

definition CONFIDENCE_THRESHOLD :: int where
  "CONFIDENCE_THRESHOLD = 80"

definition MINIMUM_QUESTIONS :: int where
  "MINIMUM_QUESTIONS = 5"

definition MAXIMUM_QUESTIONS :: int where
  "MAXIMUM_QUESTIONS = 10"

fun ARCHETYPE_DESCRIPTIONS :: "Archetype \<Rightarrow> string" where
  "ARCHETYPE_DESCRIPTIONS TJ = ''Tactical-Structured: You learn best through systematic tactical training with clear patterns and rules.''"
| "ARCHETYPE_DESCRIPTIONS TP = ''Tactical-Experimental: You learn best through tactical puzzles and experimentation with different combinations.''"
| "ARCHETYPE_DESCRIPTIONS FJ = ''Strategic-Structured: You learn best through positional understanding and structured study of strategic principles.''"
| "ARCHETYPE_DESCRIPTIONS FP = ''Strategic-Experimental: You learn best through exploring creative strategic ideas and playing various positions.''"
| "ARCHETYPE_DESCRIPTIONS Neutral = ''Balanced: You benefit from a mix of tactical and strategic content with varied learning approaches.''"

section \<open>ArchetypeCalculator (src/domain/quiz/ArchetypeCalculator.ts)\<close>

text \<open>\<open>Math.round\<close>: the nearest integer, a half rounded towards plus infinity.\<close>

definition Math_round :: "rat \<Rightarrow> int" where
  "Math_round x = \<lfloor>x + 1 / 2\<rfloor>"

definition determineArchetype :: "int \<Rightarrow> int \<Rightarrow> Archetype" where
  "determineArchetype sTF sJP =
     (let threshold = 2 in
      if \<bar>sTF\<bar> < threshold \<and> \<bar>sJP\<bar> < threshold then Neutral
      else
        let isThinking = (sTF \<ge> 0);
            isJudging = (sJP \<ge> 0)
        in if isThinking \<and> isJudging then TJ
           else if isThinking \<and> \<not> isJudging then TP
           else if \<not> isThinking \<and> isJudging then FJ
           else FP)"

definition calculateConfidence :: "int \<Rightarrow> int \<Rightarrow> int \<Rightarrow> int" where
  "calculateConfidence sTF sJP responseCount =
     (if responseCount = 0 then 0
      else
        let avgMagnitude = (of_int (\<bar>sTF\<bar> + \<bar>sJP\<bar>) :: rat) / of_int (responseCount * 2);
            maxPossibleAvg = 2;
            baseConfidence = min (avgMagnitude / maxPossibleAvg) 1;
            responseFactor = min (of_int responseCount / 10) 1;
            conf = baseConfidence * (7 / 10) + responseFactor * (3 / 10)
        in Math_round (conf * 100))"

text \<open>The summing loop of \<open>calculateArchetype\<close>: a response whose answer id is not in
  the lookup contributes nothing.\<close>

fun sumScores :: "QuizResponse list \<Rightarrow> (string \<rightharpoonup> Answer) \<Rightarrow> int \<times> int \<Rightarrow> int \<times> int" where
  "sumScores [] answerLookup (totalTF, totalJP) = (totalTF, totalJP)"
| "sumScores (response # rest) answerLookup (totalTF, totalJP) =
     (case answerLookup (answerId response) of
        Some answer \<Rightarrow>
          sumScores rest answerLookup (totalTF + scoreTF answer, totalJP + scoreJP answer)
      | None \<Rightarrow> sumScores rest answerLookup (totalTF, totalJP))"

definition calculateArchetype :: "QuizResponse list \<Rightarrow> (string \<rightharpoonup> Answer) \<Rightarrow> ArchetypeResult" where
  "calculateArchetype rs answerLookup =
     (if length rs = 0 then
        \<lparr>result_archetype = Neutral, result_confidence = 0, result_scoreTF = 0,
         result_scoreJP = 0, explanation = ARCHETYPE_DESCRIPTIONS Neutral\<rparr>
      else
        let (totalTF, totalJP) = sumScores rs answerLookup (0, 0);
            arch = determineArchetype totalTF totalJP;
            conf = calculateConfidence totalTF totalJP (int (length rs))
        in \<lparr>result_archetype = arch, result_confidence = conf, result_scoreTF = totalTF,
            result_scoreJP = totalJP, explanation = ARCHETYPE_DESCRIPTIONS arch\<rparr>)"

definition hasClearArchetype :: "int \<Rightarrow> int \<Rightarrow> bool" where
  "hasClearArchetype sTF sJP = (let threshold = 2 in \<bar>sTF\<bar> \<ge> threshold \<or> \<bar>sJP\<bar> \<ge> threshold)"

section \<open>QuizEngine (src/domain/quiz/QuizEngine.ts)\<close>

text \<open>The class is a record of its three private fields; every method takes the engine
  and returns its result together with the engine after the call. A \<open>throw\<close> is the
  \<open>Inl\<close> result, one constructor for each of the three \<open>throw\<close> statements of
  \<open>answerQuestion\<close>.\<close>

record QuizEngine =
  questions :: "Question list"
  session :: QuizSession
  answerLookup :: "string \<rightharpoonup> Answer"

datatype QuizError =
    QuizAlreadyComplete
  | QuestionNotFound string
  | AnswerNotFound string string

definition initializeSession :: QuizSession where
  "initializeSession =
     \<lparr>responses = [], currentScoreTF = 0, currentScoreJP = 0, isComplete = False,
      archetype = None, confidence = 0\<rparr>"

definition buildAnswerLookup :: "Question list \<Rightarrow> (string \<rightharpoonup> Answer)" where
  "buildAnswerLookup qs =
     foldl (\<lambda>lookup question.
              foldl (\<lambda>lookup answer. lookup(answer_id answer \<mapsto> answer)) lookup (answers question))
           Map.empty qs"

definition newQuizEngine :: "Question list \<Rightarrow> QuizEngine" where
  "newQuizEngine qs =
     \<lparr>questions = qs, session = initializeSession, answerLookup = buildAnswerLookup qs\<rparr>"

definition shouldTerminateEarly :: "QuizEngine \<Rightarrow> bool" where
  "shouldTerminateEarly e =
     (let responseCount = int (length (responses (session e))) in
      if responseCount < MINIMUM_QUESTIONS then False
      else confidence (session e) \<ge> CONFIDENCE_THRESHOLD)"

definition completeQuiz :: "QuizEngine \<Rightarrow> QuizEngine" where
  "completeQuiz e =
     (let result = calculateArchetype (responses (session e)) (answerLookup e) in
      e\<lparr>session := (session e)\<lparr>isComplete := True,
                                archetype := Some (result_archetype result),
                                confidence := result_confidence result\<rparr>\<rparr>)"

definition getNextQuestion :: "QuizEngine \<Rightarrow> Question option \<times> QuizEngine" where
  "getNextQuestion e =
     (if isComplete (session e) then (None, e)
      else if shouldTerminateEarly e then (None, completeQuiz e)
      else
        let answeredIds = set (map questionId (responses (session e)))
        in (find (\<lambda>q. question_id q \<notin> answeredIds) (questions e), e))"

definition answerQuestion :: "string \<Rightarrow> string \<Rightarrow> int \<Rightarrow> QuizEngine \<Rightarrow> (QuizError + unit) \<times> QuizEngine" where
  "answerQuestion qId aId now e =
     (if isComplete (session e) then (Inl QuizAlreadyComplete, e)
      else
        case find (\<lambda>q. question_id q = qId) (questions e) of
          None \<Rightarrow> (Inl (QuestionNotFound qId), e)
        | Some question \<Rightarrow>
            (case find (\<lambda>a. answer_id a = aId) (answers question) of
               None \<Rightarrow> (Inl (AnswerNotFound aId qId), e)
             | Some answer \<Rightarrow>
                 let response = \<lparr>questionId = qId, answerId = aId, timestamp = now\<rparr>;
                     s1 = (session e)\<lparr>responses := responses (session e) @ [response]\<rparr>;
                     s2 = s1\<lparr>currentScoreTF := currentScoreTF s1 + scoreTF answer\<rparr>;
                     s3 = s2\<lparr>currentScoreJP := currentScoreJP s2 + scoreJP answer\<rparr>;
                     s4 = s3\<lparr>confidence :=
                              calculateConfidence (currentScoreTF s3) (currentScoreJP s3)
                                (int (length (responses s3)))\<rparr>;
                     e4 = e\<lparr>session := s4\<rparr>
                 in if int (length (responses s4)) \<ge> MAXIMUM_QUESTIONS \<or> shouldTerminateEarly e4
                    then (Inr (), completeQuiz e4)
                    else (Inr (), e4)))"

definition getSession :: "QuizEngine \<Rightarrow> QuizSession" where
  "getSession e = session e"

definition getArchetype :: "QuizEngine \<Rightarrow> Archetype option" where
  "getArchetype e = archetype (session e)"

definition getConfidence :: "QuizEngine \<Rightarrow> int" where
  "getConfidence e = confidence (session e)"

definition reset :: "QuizEngine \<Rightarrow> QuizEngine" where
  "reset e = e\<lparr>session := initializeSession\<rparr>"

definition getResponseCount :: "QuizEngine \<Rightarrow> int" where
  "getResponseCount e = int (length (responses (session e)))"

definition getProgress :: "QuizEngine \<Rightarrow> int" where
  "getProgress e =
     Math_round ((of_int (int (length (responses (session e)))) / of_int MAXIMUM_QUESTIONS) * 100)"

section \<open>Runs of the engine\<close>

text \<open>The public operations that change the engine, and a run of them from a given
  engine. A call of \<open>answerQuestion\<close> that throws leaves the engine as the call left it,
  and the caller may go on. \<open>answerAll\<close> is a caller that makes its calls of
  \<open>answerQuestion\<close> in a row and stops at the first one that throws.\<close>

datatype Op = GetNextQuestion | AnswerQuestion string string int | Reset

fun step :: "QuizEngine \<Rightarrow> Op \<Rightarrow> QuizEngine" where
  "step e GetNextQuestion = snd (getNextQuestion e)"
| "step e (AnswerQuestion qId aId now) = snd (answerQuestion qId aId now e)"
| "step e Reset = reset e"

definition run :: "Op list \<Rightarrow> QuizEngine \<Rightarrow> QuizEngine" where
  "run ops e = foldl step e ops"

fun answerAll :: "(string \<times> string \<times> int) list \<Rightarrow> QuizEngine \<Rightarrow> (QuizError + unit) \<times> QuizEngine" where
  "answerAll [] e = (Inr (), e)"
| "answerAll ((qId, aId, now) # rest) e =
     (case answerQuestion qId aId now e of
        (Inl err, e') \<Rightarrow> (Inl err, e')
      | (Inr u, e') \<Rightarrow> answerAll rest e')"

text \<open>\<open>foundAnswer\<close> is the validation of \<open>answerQuestion\<close>: the first question of the
  given id, then its first answer of the given id. \<open>recorded\<close> is the engine after
  \<open>answerQuestion\<close> has pushed the response and updated scores and confidence, before its
  completion test. \<open>coreInv\<close> and \<open>flowInv\<close> are the invariants of the engines reached
  from a new one: the running scores are the sums of the weights of the validated answers,
  and completion, archetype and confidence are tied to the number of responses.\<close>

definition foundAnswer :: "Question list \<Rightarrow> string \<Rightarrow> string \<Rightarrow> Answer option" where
  "foundAnswer qs qId aId =
     (case find (\<lambda>q. question_id q = qId) qs of
        None \<Rightarrow> None
      | Some question \<Rightarrow> find (\<lambda>a. answer_id a = aId) (answers question))"

definition answerIds :: "Question list \<Rightarrow> string list" where
  "answerIds qs = map answer_id (concat (map answers qs))"

definition recorded :: "QuizEngine \<Rightarrow> string \<Rightarrow> string \<Rightarrow> int \<Rightarrow> Answer \<Rightarrow> QuizEngine" where
  "recorded e qId aId now an =
     e\<lparr>session := (session e)
          \<lparr>responses := responses (session e) @ [\<lparr>questionId = qId, answerId = aId, timestamp = now\<rparr>],
           currentScoreTF := currentScoreTF (session e) + scoreTF an,
           currentScoreJP := currentScoreJP (session e) + scoreJP an,
           confidence := calculateConfidence (currentScoreTF (session e) + scoreTF an)
                           (currentScoreJP (session e) + scoreJP an)
                           (int (length (responses (session e))) + 1)\<rparr>\<rparr>"

definition runningTF :: "Question list \<Rightarrow> QuizResponse list \<Rightarrow> int" where
  "runningTF qs rs =
     sum_list (map (\<lambda>r. case foundAnswer qs (questionId r) (answerId r) of
                            Some a \<Rightarrow> scoreTF a | None \<Rightarrow> 0) rs)"

definition runningJP :: "Question list \<Rightarrow> QuizResponse list \<Rightarrow> int" where
  "runningJP qs rs =
     sum_list (map (\<lambda>r. case foundAnswer qs (questionId r) (answerId r) of
                            Some a \<Rightarrow> scoreJP a | None \<Rightarrow> 0) rs)"

definition coreInv :: "Question list \<Rightarrow> QuizEngine \<Rightarrow> bool" where
  "coreInv qs e =
     (questions e = qs \<and> answerLookup e = buildAnswerLookup qs \<and>
      list_all (\<lambda>r. foundAnswer qs (questionId r) (answerId r) \<noteq> None) (responses (session e)) \<and>
      currentScoreTF (session e) = runningTF qs (responses (session e)) \<and>
      currentScoreJP (session e) = runningJP qs (responses (session e)))"

definition flowInv :: "QuizEngine \<Rightarrow> bool" where
  "flowInv e =
     (let s = session e; n = int (length (responses s)) in
      n \<le> MAXIMUM_QUESTIONS \<and>
      (if isComplete s
       then archetype s = Some (result_archetype (calculateArchetype (responses s) (answerLookup e))) \<and>
            confidence s = result_confidence (calculateArchetype (responses s) (answerLookup e)) \<and>
            (n = MAXIMUM_QUESTIONS \<or>
             (MINIMUM_QUESTIONS \<le> n \<and>
              CONFIDENCE_THRESHOLD \<le> calculateConfidence (currentScoreTF s) (currentScoreJP s) n))
       else n < MAXIMUM_QUESTIONS \<and> archetype s = None \<and>
            confidence s = calculateConfidence (currentScoreTF s) (currentScoreJP s) n \<and>
            \<not> shouldTerminateEarly e))"

section \<open>Auxiliary notions for the claims\<close>


definition agree :: "QuizEngine \<Rightarrow> QuizEngine \<Rightarrow> bool" where
  "agree e1 e2 =
     (questions e1 = questions e2 \<and> answerLookup e1 = answerLookup e2 \<and>
      map (\<lambda>r. (questionId r, answerId r)) (responses (session e1))
        = map (\<lambda>r. (questionId r, answerId r)) (responses (session e2)) \<and>
      currentScoreTF (session e1) = currentScoreTF (session e2) \<and>
      currentScoreJP (session e1) = currentScoreJP (session e2) \<and>
      isComplete (session e1) = isComplete (session e2) \<and>
      archetype (session e1) = archetype (session e2) \<and>
      confidence (session e1) = confidence (session e2))"

fun answersFresh :: "Op list \<Rightarrow> QuizEngine \<Rightarrow> bool" where
  "answersFresh [] e = True"
| "answersFresh (GetNextQuestion # ops) e = answersFresh ops (step e GetNextQuestion)"
| "answersFresh (Reset # ops) e = answersFresh ops (step e Reset)"
| "answersFresh (AnswerQuestion qId aId now # ops) e =
     (qId \<notin> set (map questionId (responses (session e))) \<and>
      answersFresh ops (step e (AnswerQuestion qId aId now)))"

section \<open>A sample bank and sample runs\<close>

text \<open>Ten questions \<open>q0\<close> .. \<open>q9\<close>; question \<open>qd\<close> offers the answer \<open>ad\<close> of weights
  (2, 2) and the answer \<open>nd\<close> of weights (0, 0).\<close>

definition sampleQuestion :: "string \<Rightarrow> Question" where
  "sampleQuestion d =
     \<lparr>question_id = ''q'' @ d, question_text = ''How do you choose a move?'',
      dimension = T_F,
      answers =
        [\<lparr>answer_id = ''a'' @ d, answer_text = ''By calculation'', scoreTF = 2, scoreJP = 2\<rparr>,
         \<lparr>answer_id = ''n'' @ d, answer_text = ''I am not sure'', scoreTF = 0, scoreJP = 0\<rparr>]\<rparr>"

definition sampleBank :: "Question list" where
  "sampleBank =
     [sampleQuestion ''0'', sampleQuestion ''1'', sampleQuestion ''2'', sampleQuestion ''3'',
      sampleQuestion ''4'', sampleQuestion ''5'', sampleQuestion ''6'', sampleQuestion ''7'',
      sampleQuestion ''8'', sampleQuestion ''9'']"

definition strongCalls :: "(string \<times> string \<times> int) list" where
  "strongCalls = [(''q0'', ''a0'', 100), (''q1'', ''a1'', 101), (''q2'', ''a2'', 102),
                  (''q3'', ''a3'', 103), (''q4'', ''a4'', 104)]"

definition strongCallsLater :: "(string \<times> string \<times> int) list" where
  "strongCallsLater = map (\<lambda>(q, a, t). (q, a, t + 5000)) strongCalls"

definition strongOps :: "Op list" where
  "strongOps = map (\<lambda>(q, a, t). AnswerQuestion q a t) strongCalls"

definition neutralCalls :: "(string \<times> string \<times> int) list" where
  "neutralCalls = [(''q0'', ''n0'', 100), (''q1'', ''n1'', 101), (''q2'', ''n2'', 102),
                   (''q3'', ''n3'', 103), (''q4'', ''n4'', 104), (''q5'', ''n5'', 105),
                   (''q6'', ''n6'', 106), (''q7'', ''n7'', 107), (''q8'', ''n8'', 108),
                   (''q9'', ''n9'', 109)]"

definition neutralOps :: "Op list" where
  "neutralOps = map (\<lambda>(q, a, t). AnswerQuestion q a t) neutralCalls"

definition repeatedOps :: "Op list" where
  "repeatedOps = [AnswerQuestion ''q0'' ''n0'' 100, AnswerQuestion ''q0'' ''n0'' 101]"

definition guidedOps :: "Op list" where
  "guidedOps = [GetNextQuestion, AnswerQuestion ''q0'' ''n0'' 100, GetNextQuestion,
                AnswerQuestion ''q1'' ''a1'' 101]"


section \<open>Arithmetic of the calculator\<close>


lemma calculateConfidence_zero [simp]: "calculateConfidence a b 0 = 0"
  by (simp add: calculateConfidence_def)


section \<open>The cases of answerQuestion and the invariants of a run\<close>

lemma answerQuestion_complete:
  "isComplete (session e) \<Longrightarrow> answerQuestion q a t e = (Inl QuizAlreadyComplete, e)"
  by (simp add: answerQuestion_def)

lemma answerQuestion_noq:
  "\<not> isComplete (session e) \<Longrightarrow> find (\<lambda>x. question_id x = q) (questions e) = None \<Longrightarrow>
   answerQuestion q a t e = (Inl (QuestionNotFound q), e)"
  by (simp add: answerQuestion_def)

lemma answerQuestion_noa:
  "\<not> isComplete (session e) \<Longrightarrow> find (\<lambda>x. question_id x = q) (questions e) = Some qu \<Longrightarrow>
   find (\<lambda>x. answer_id x = a) (answers qu) = None \<Longrightarrow>
   answerQuestion q a t e = (Inl (AnswerNotFound a q), e)"
  by (simp add: answerQuestion_def)

lemma answerQuestion_ok:
  "\<not> isComplete (session e) \<Longrightarrow> find (\<lambda>x. question_id x = q) (questions e) = Some qu \<Longrightarrow>
   find (\<lambda>x. answer_id x = a) (answers qu) = Some an \<Longrightarrow>
   answerQuestion q a t e =
     (Inr (), if int (length (responses (session e))) + 1 \<ge> MAXIMUM_QUESTIONS
                 \<or> shouldTerminateEarly (recorded e q a t an)
              then completeQuiz (recorded e q a t an) else recorded e q a t an)"
  by (simp add: answerQuestion_def recorded_def Let_def shouldTerminateEarly_def add.commute)

lemma coreInv_new: "coreInv qs (newQuizEngine qs)"
  by (simp add: coreInv_def newQuizEngine_def initializeSession_def runningTF_def runningJP_def)

lemma flowInv_new: "flowInv (newQuizEngine qs)"
  by (simp add: flowInv_def newQuizEngine_def initializeSession_def Let_def
      MAXIMUM_QUESTIONS_def shouldTerminateEarly_def MINIMUM_QUESTIONS_def)

lemma coreInv_reset: "coreInv qs e \<Longrightarrow> coreInv qs (reset e)"
  by (simp add: coreInv_def reset_def initializeSession_def runningTF_def runningJP_def)

lemma flowInv_reset: "flowInv (reset e)"
  by (simp add: flowInv_def reset_def initializeSession_def Let_def
      MAXIMUM_QUESTIONS_def shouldTerminateEarly_def MINIMUM_QUESTIONS_def)

lemma coreInv_completeQuiz: "coreInv qs e \<Longrightarrow> coreInv qs (completeQuiz e)"
  by (simp add: coreInv_def completeQuiz_def Let_def)

lemma coreInv_recorded:
  "coreInv qs e \<Longrightarrow> foundAnswer qs q a = Some an \<Longrightarrow> coreInv qs (recorded e q a t an)"
  by (simp add: coreInv_def recorded_def runningTF_def runningJP_def)

lemma getNextQuestion_snd:
  "snd (getNextQuestion e) =
     (if \<not> isComplete (session e) \<and> shouldTerminateEarly e then completeQuiz e else e)"
  by (simp add: getNextQuestion_def Let_def)

lemma coreInv_getNextQuestion: "coreInv qs e \<Longrightarrow> coreInv qs (snd (getNextQuestion e))"
  by (simp add: getNextQuestion_snd coreInv_completeQuiz)

lemma flowInv_getNextQuestion: "flowInv e \<Longrightarrow> flowInv (snd (getNextQuestion e))"
  by (auto simp add: getNextQuestion_snd flowInv_def Let_def split: if_splits)

lemma answerQuestion_snd_cases:
  "snd (answerQuestion q a t e) = e \<or>
   (\<not> isComplete (session e) \<and>
    (\<exists>an. foundAnswer (questions e) q a = Some an \<and>
       snd (answerQuestion q a t e) =
         (if int (length (responses (session e))) + 1 \<ge> MAXIMUM_QUESTIONS
               \<or> shouldTerminateEarly (recorded e q a t an)
          then completeQuiz (recorded e q a t an) else recorded e q a t an)))"
proof (cases "isComplete (session e)")
  case True then show ?thesis by (simp add: answerQuestion_complete)
next
  case nc: False
  show ?thesis
  proof (cases "find (\<lambda>x. question_id x = q) (questions e)")
    case None then show ?thesis using nc by (simp add: answerQuestion_noq)
  next
    case (Some qu)
    show ?thesis
    proof (cases "find (\<lambda>x. answer_id x = a) (answers qu)")
      case None then show ?thesis using nc Some by (simp add: answerQuestion_noa)
    next
      case (Some an)
      have "foundAnswer (questions e) q a = Some an"
        using \<open>find (\<lambda>x. question_id x = q) (questions e) = Some qu\<close> Some
        by (simp add: foundAnswer_def)
      then show ?thesis
        using nc \<open>find (\<lambda>x. question_id x = q) (questions e) = Some qu\<close> Some
        by (simp add: answerQuestion_ok)
    qed
  qed
qed

lemma coreInv_answerQuestion:
  assumes "coreInv qs e"
  shows "coreInv qs (snd (answerQuestion q a t e))"
proof -
  have qs: "questions e = qs" using assms by (simp add: coreInv_def)
  from answerQuestion_snd_cases[of q a t e] show ?thesis
  proof
    assume "snd (answerQuestion q a t e) = e"
    then show ?thesis using assms by simp
  next
    assume "\<not> isComplete (session e) \<and>
      (\<exists>an. foundAnswer (questions e) q a = Some an \<and>
         snd (answerQuestion q a t e) =
           (if int (length (responses (session e))) + 1 \<ge> MAXIMUM_QUESTIONS
                 \<or> shouldTerminateEarly (recorded e q a t an)
            then completeQuiz (recorded e q a t an) else recorded e q a t an))"
    then obtain an where an: "foundAnswer qs q a = Some an"
      and eq: "snd (answerQuestion q a t e) =
           (if int (length (responses (session e))) + 1 \<ge> MAXIMUM_QUESTIONS
                 \<or> shouldTerminateEarly (recorded e q a t an)
            then completeQuiz (recorded e q a t an) else recorded e q a t an)"
      using qs by auto
    have "coreInv qs (recorded e q a t an)" using assms an by (rule coreInv_recorded)
    then show ?thesis unfolding eq by (simp add: coreInv_completeQuiz)
  qed
qed

lemma flowInv_recorded:
  "flowInv e \<Longrightarrow> \<not> isComplete (session e) \<Longrightarrow>
   flowInv (if int (length (responses (session e))) + 1 \<ge> MAXIMUM_QUESTIONS
               \<or> shouldTerminateEarly (recorded e q a t an)
            then completeQuiz (recorded e q a t an) else recorded e q a t an)"
  by (auto simp add: flowInv_def Let_def recorded_def completeQuiz_def shouldTerminateEarly_def
        MAXIMUM_QUESTIONS_def MINIMUM_QUESTIONS_def add.commute split: if_splits)

lemma flowInv_answerQuestion: "flowInv e \<Longrightarrow> flowInv (snd (answerQuestion q a t e))"
  using answerQuestion_snd_cases[of q a t e] flowInv_recorded[of e q a t]
  by auto

lemma coreInv_step: "coreInv qs e \<Longrightarrow> coreInv qs (step e op)"
  by (cases op) (simp_all add: coreInv_getNextQuestion coreInv_answerQuestion coreInv_reset)

lemma flowInv_step: "flowInv e \<Longrightarrow> flowInv (step e op)"
  by (cases op) (simp_all add: flowInv_getNextQuestion flowInv_answerQuestion flowInv_reset)

lemma coreInv_run: "coreInv qs e \<Longrightarrow> coreInv qs (run ops e)"
  unfolding run_def by (induction ops arbitrary: e) (simp_all add: coreInv_step)

lemma flowInv_run: "flowInv e \<Longrightarrow> flowInv (run ops e)"
  unfolding run_def by (induction ops arbitrary: e) (simp_all add: flowInv_step)

section \<open>The answer lookup, replay and freshness\<close>

lemma foldl_upd_other:
  "k \<notin> answer_id ` set as \<Longrightarrow>
   foldl (\<lambda>lookup answer. lookup(answer_id answer \<mapsto> answer)) m as k = m k"
  by (induction as arbitrary: m) auto

lemma foldl_upd_distinct:
  "distinct (map answer_id as) \<Longrightarrow> an \<in> set as \<Longrightarrow>
   foldl (\<lambda>lookup answer. lookup(answer_id answer \<mapsto> answer)) m as (answer_id an) = Some an"
proof (induction as arbitrary: m)
  case Nil
  then show ?case by simp
next
  case (Cons x xs)
  show ?case
  proof (cases "an = x")
    case True
    have "answer_id x \<notin> answer_id ` set xs" using Cons.prems by auto
    then have "foldl (\<lambda>lookup answer. lookup(answer_id answer \<mapsto> answer)) (m(answer_id x \<mapsto> x)) xs (answer_id x)
        = (m(answer_id x \<mapsto> x)) (answer_id x)"
      by (rule foldl_upd_other)
    then show ?thesis unfolding True by (simp only: foldl_Cons fun_upd_same)
  next
    case False
    then show ?thesis using Cons by simp
  qed
qed

lemma buildAnswerLookup_concat:
  "foldl (\<lambda>lookup question.
            foldl (\<lambda>lookup answer. lookup(answer_id answer \<mapsto> answer)) lookup (answers question)) m qs
   = foldl (\<lambda>lookup answer. lookup(answer_id answer \<mapsto> answer)) m (concat (map answers qs))"
  by (induction qs arbitrary: m) simp_all

lemma buildAnswerLookup_unique:
  assumes "distinct (answerIds qs)" "qu \<in> set qs" "an \<in> set (answers qu)"
  shows "buildAnswerLookup qs (answer_id an) = Some an"
proof -
  have "an \<in> set (concat (map answers qs))" using assms(2,3) by auto
  then show ?thesis
    using assms(1) unfolding buildAnswerLookup_def buildAnswerLookup_concat answerIds_def
    by (rule foldl_upd_distinct[rotated])
qed

lemma foundAnswer_SomeD:
  assumes "foundAnswer qs q a = Some an"
  shows "\<exists>qu \<in> set qs. an \<in> set (answers qu) \<and> answer_id an = a \<and> question_id qu = q"
proof -
  from assms obtain qu where qu: "find (\<lambda>x. question_id x = q) qs = Some qu"
    and an: "find (\<lambda>x. answer_id x = a) (answers qu) = Some an"
    by (auto simp add: foundAnswer_def split: option.splits)
  from qu have "qu \<in> set qs" "question_id qu = q" by (auto simp add: find_Some_iff)
  moreover from an have "an \<in> set (answers qu)" "answer_id an = a" by (auto simp add: find_Some_iff)
  ultimately show ?thesis by blast
qed

lemma lookup_foundAnswer:
  assumes "distinct (answerIds qs)" "foundAnswer qs q a = Some an"
  shows "buildAnswerLookup qs a = Some an"
  using foundAnswer_SomeD[OF assms(2)] buildAnswerLookup_unique[OF assms(1)] by blast

lemma sumScores_running:
  assumes "distinct (answerIds qs)"
    and "list_all (\<lambda>r. foundAnswer qs (questionId r) (answerId r) \<noteq> None) rs"
  shows "sumScores rs (buildAnswerLookup qs) (x, y) = (x + runningTF qs rs, y + runningJP qs rs)"
  using assms(2)
proof (induction rs arbitrary: x y)
  case Nil
  then show ?case by (simp add: runningTF_def runningJP_def)
next
  case (Cons r rs)
  then obtain an where an: "foundAnswer qs (questionId r) (answerId r) = Some an" by auto
  have lk: "buildAnswerLookup qs (answerId r) = Some an"
    using assms(1) an by (rule lookup_foundAnswer)
  have "list_all (\<lambda>r. foundAnswer qs (questionId r) (answerId r) \<noteq> None) rs"
    using Cons.prems by simp
  from Cons.IH[OF this] show ?case
    using an lk by (simp add: runningTF_def runningJP_def)
qed

lemma calculateArchetype_running:
  assumes "distinct (answerIds qs)" "coreInv qs e"
  shows "result_scoreTF (calculateArchetype (responses (session e)) (answerLookup e)) = currentScoreTF (session e)"
    and "result_scoreJP (calculateArchetype (responses (session e)) (answerLookup e)) = currentScoreJP (session e)"
    and "result_archetype (calculateArchetype (responses (session e)) (answerLookup e))
         = determineArchetype (currentScoreTF (session e)) (currentScoreJP (session e))"
    and "result_confidence (calculateArchetype (responses (session e)) (answerLookup e))
         = calculateConfidence (currentScoreTF (session e)) (currentScoreJP (session e))
             (int (length (responses (session e))))"
proof -
  have all: "list_all (\<lambda>r. foundAnswer qs (questionId r) (answerId r) \<noteq> None) (responses (session e))"
    and lk: "answerLookup e = buildAnswerLookup qs"
    and tf: "currentScoreTF (session e) = runningTF qs (responses (session e))"
    and jp: "currentScoreJP (session e) = runningJP qs (responses (session e))"
    using assms(2) by (simp_all add: coreInv_def)
  have s: "sumScores (responses (session e)) (answerLookup e) (0, 0)
           = (currentScoreTF (session e), currentScoreJP (session e))"
    using sumScores_running[OF assms(1) all, of 0 0] lk tf jp by simp
  have z: "responses (session e) = [] \<Longrightarrow> currentScoreTF (session e) = 0 \<and> currentScoreJP (session e) = 0"
    using tf jp by (simp add: runningTF_def runningJP_def)
  have d: "determineArchetype 0 0 = Neutral" by (simp add: determineArchetype_def)
  show "result_scoreTF (calculateArchetype (responses (session e)) (answerLookup e)) = currentScoreTF (session e)"
    using s z by (simp add: calculateArchetype_def Let_def)
  show "result_scoreJP (calculateArchetype (responses (session e)) (answerLookup e)) = currentScoreJP (session e)"
    using s z by (simp add: calculateArchetype_def Let_def)
  show "result_archetype (calculateArchetype (responses (session e)) (answerLookup e))
         = determineArchetype (currentScoreTF (session e)) (currentScoreJP (session e))"
    using s z d by (simp add: calculateArchetype_def Let_def)
  show "result_confidence (calculateArchetype (responses (session e)) (answerLookup e))
         = calculateConfidence (currentScoreTF (session e)) (currentScoreJP (session e))
             (int (length (responses (session e))))"
    using s z by (simp add: calculateArchetype_def Let_def)
qed

lemma coreInv_answerAll: "coreInv qs e \<Longrightarrow> coreInv qs (snd (answerAll calls e))"
proof (induction calls arbitrary: e)
  case Nil
  then show ?case by simp
next
  case (Cons c calls)
  obtain q a t where c: "c = (q, a, t)" by (cases c) auto
  have "coreInv qs (snd (answerQuestion q a t e))" using Cons.prems by (rule coreInv_answerQuestion)
  then show ?case using Cons.IH Cons.prems unfolding c
    by (cases "answerQuestion q a t e") (auto split: sum.splits)
qed


lemma sample_unique: "distinct (answerIds sampleBank)"
  by (simp add: answerIds_def sampleBank_def sampleQuestion_def)

lemma sumScores_cong:
  "map answerId rs = map answerId rs' \<Longrightarrow> sumScores rs lk acc = sumScores rs' lk acc"
proof (induction rs arbitrary: rs' acc)
  case Nil
  then show ?case by simp
next
  case (Cons r rs)
  then obtain r' rest where rs': "rs' = r' # rest" by (cases rs') auto
  obtain x y where acc: "acc = (x, y)" by (cases acc)
  have ids: "answerId r = answerId r'" "map answerId rs = map answerId rest"
    using Cons.prems rs' by simp_all
  show ?case unfolding rs' acc
    using Cons.IH[OF ids(2)] ids(1) by (simp split: option.splits)
qed

lemma agree_ids:
  assumes "agree e1 e2"
  shows "map answerId (responses (session e1)) = map answerId (responses (session e2))"
    and "length (responses (session e1)) = length (responses (session e2))"
proof -
  have m: "map (\<lambda>r. (questionId r, answerId r)) (responses (session e1))
        = map (\<lambda>r. (questionId r, answerId r)) (responses (session e2))"
    using assms by (simp add: agree_def)
  from arg_cong[OF m, of "map snd"]
  show "map answerId (responses (session e1)) = map answerId (responses (session e2))"
    by (simp add: comp_def)
  from arg_cong[OF m, of length]
  show "length (responses (session e1)) = length (responses (session e2))" by simp
qed

lemma calculateArchetype_cong:
  assumes "map answerId rs = map answerId rs'"
  shows "calculateArchetype rs lk = calculateArchetype rs' lk"
proof -
  have l: "length rs = length rs'" using arg_cong[OF assms, of length] by simp
  show ?thesis
    unfolding calculateArchetype_def sumScores_cong[OF assms, of lk "(0, 0)"] l ..
qed

lemma agree_completeQuiz: "agree e1 e2 \<Longrightarrow> agree (completeQuiz e1) (completeQuiz e2)"
  using calculateArchetype_cong[OF agree_ids(1), of e1 e2 "answerLookup e2"]
  by (simp add: agree_def completeQuiz_def Let_def)

lemma agree_recorded:
  "agree e1 e2 \<Longrightarrow> agree (recorded e1 q a t1 an) (recorded e2 q a t2 an)"
  using agree_ids(2)[of e1 e2]
  by (simp add: agree_def recorded_def)

lemma agree_shouldTerminateEarly:
  "agree e1 e2 \<Longrightarrow> shouldTerminateEarly e1 = shouldTerminateEarly e2"
  using agree_ids(2)[of e1 e2]
  by (simp add: agree_def shouldTerminateEarly_def)

lemma agree_answerQuestion:
  assumes "agree e1 e2"
  shows "fst (answerQuestion q a t1 e1) = fst (answerQuestion q a t2 e2) \<and>
         agree (snd (answerQuestion q a t1 e1)) (snd (answerQuestion q a t2 e2))"
proof (cases "isComplete (session e1)")
  case True
  then have "isComplete (session e2)" using assms by (simp add: agree_def)
  with True show ?thesis using assms by (simp add: answerQuestion_complete)
next
  case nc1: False
  then have nc2: "\<not> isComplete (session e2)" using assms by (simp add: agree_def)
  have qs: "questions e2 = questions e1" using assms by (simp add: agree_def)
  show ?thesis
  proof (cases "find (\<lambda>x. question_id x = q) (questions e1)")
    case None
    then show ?thesis using nc1 nc2 qs assms by (simp add: answerQuestion_noq)
  next
    case (Some qu)
    show ?thesis
    proof (cases "find (\<lambda>x. answer_id x = a) (answers qu)")
      case None
      show ?thesis
        using answerQuestion_noa[OF nc1 Some None] answerQuestion_noa[OF nc2 Some[folded qs] None] assms
        by simp
    next
      case an: (Some an)
      have r: "agree (recorded e1 q a t1 an) (recorded e2 q a t2 an)"
        using assms by (rule agree_recorded)
      have l: "length (responses (session e1)) = length (responses (session e2))"
        using assms by (rule agree_ids(2))
      show ?thesis
        using answerQuestion_ok[OF nc1 Some an, of t1] answerQuestion_ok[OF nc2 Some[folded qs] an, of t2]
          r agree_shouldTerminateEarly[OF r] agree_completeQuiz[OF r] l
        by simp
    qed
  qed
qed

lemma agree_answerAll:
  assumes "agree e1 e2"
    and "map (\<lambda>(q, a, t). (q, a)) cs1 = map (\<lambda>(q, a, t). (q, a)) cs2"
  shows "fst (answerAll cs1 e1) = fst (answerAll cs2 e2) \<and>
         agree (snd (answerAll cs1 e1)) (snd (answerAll cs2 e2))"
  using assms
proof (induction cs1 arbitrary: cs2 e1 e2)
  case Nil
  then show ?case by simp
next
  case (Cons c cs1)
  then obtain c' rest where cs2: "cs2 = c' # rest" by (cases cs2) auto
  obtain q a t1 where c: "c = (q, a, t1)" by (cases c) auto
  obtain q' a' t2 where c': "c' = (q', a', t2)" by (cases c') auto
  have same: "q' = q" "a' = a" "map (\<lambda>(q, a, t). (q, a)) cs1 = map (\<lambda>(q, a, t). (q, a)) rest"
    using Cons.prems(2) unfolding cs2 c c' by simp_all
  from agree_answerQuestion[OF Cons.prems(1), of q a t1 t2]
  have f: "fst (answerQuestion q a t1 e1) = fst (answerQuestion q a t2 e2)"
    and s: "agree (snd (answerQuestion q a t1 e1)) (snd (answerQuestion q a t2 e2))"
    by simp_all
  obtain r1 e1' where a1: "answerQuestion q a t1 e1 = (r1, e1')" by (cases "answerQuestion q a t1 e1")
  obtain r2 e2' where a2: "answerQuestion q a t2 e2 = (r2, e2')" by (cases "answerQuestion q a t2 e2")
  have rr: "r2 = r1" and ag: "agree e1' e2'" using f s a1 a2 by simp_all
  show ?case
  proof (cases r1)
    case (Inl err)
    then show ?thesis unfolding cs2 c c' same using a1 a2 rr ag by simp
  next
    case (Inr u)
    then show ?thesis unfolding cs2 c c' same using a1 a2 rr Cons.IH[OF ag same(3)] by simp
  qed
qed

lemma reset_reachable:
  assumes "coreInv qs e"
  shows "reset e = newQuizEngine qs"
  using assms by (simp add: coreInv_def reset_def newQuizEngine_def)

lemma responses_completeQuiz [simp]:
  "responses (session (completeQuiz e)) = responses (session e)"
  by (simp add: completeQuiz_def Let_def)

lemma distinct_step:
  assumes "distinct (map questionId (responses (session e)))"
    and "\<And>q a t. op = AnswerQuestion q a t \<Longrightarrow> q \<notin> set (map questionId (responses (session e)))"
  shows "distinct (map questionId (responses (session (step e op))))"
proof (cases op)
  case GetNextQuestion
  then show ?thesis using assms(1) by (simp add: getNextQuestion_snd)
next
  case (AnswerQuestion q a t)
  then have fresh: "q \<notin> set (map questionId (responses (session e)))" by (rule assms(2))
  from answerQuestion_snd_cases[of q a t e] show ?thesis
  proof
    assume "snd (answerQuestion q a t e) = e"
    then show ?thesis using AnswerQuestion assms(1) by simp
  next
    assume "\<not> isComplete (session e) \<and>
      (\<exists>an. foundAnswer (questions e) q a = Some an \<and>
         snd (answerQuestion q a t e) =
           (if int (length (responses (session e))) + 1 \<ge> MAXIMUM_QUESTIONS
                 \<or> shouldTerminateEarly (recorded e q a t an)
            then completeQuiz (recorded e q a t an) else recorded e q a t an))"
    then obtain an where eq: "snd (answerQuestion q a t e) =
           (if int (length (responses (session e))) + 1 \<ge> MAXIMUM_QUESTIONS
                 \<or> shouldTerminateEarly (recorded e q a t an)
            then completeQuiz (recorded e q a t an) else recorded e q a t an)" by blast
    have "distinct (map questionId (responses (session (recorded e q a t an))))"
      using assms(1) fresh by (simp add: recorded_def)
    then show ?thesis unfolding AnswerQuestion step.simps eq by simp
  qed
next
  case Reset
  then show ?thesis by (simp add: reset_def initializeSession_def)
qed

lemma distinct_run:
  "distinct (map questionId (responses (session e))) \<Longrightarrow> answersFresh ops e \<Longrightarrow>
   distinct (map questionId (responses (session (run ops e))))"
proof (induction ops arbitrary: e)
  case Nil
  then show ?case by (simp add: run_def)
next
  case (Cons op ops)
  have d: "distinct (map questionId (responses (session (step e op))))"
    using Cons.prems by (intro distinct_step) (auto)
  have f: "answersFresh ops (step e op)" using Cons.prems(2) by (cases op) simp_all
  from Cons.IH[OF d f] show ?case by (simp add: run_def)
qed

lemma getNextQuestion_fresh:
  assumes "fst (getNextQuestion e) = Some qu"
  shows "question_id qu \<notin> set (map questionId (responses (session e)))"
proof -
  have "find (\<lambda>q. question_id q \<notin> set (map questionId (responses (session e)))) (questions e) = Some qu"
    using assms by (simp add: getNextQuestion_def Let_def split: if_splits)
  then show ?thesis by (auto simp add: find_Some_iff)
qed

lemma guided_fresh: "answersFresh guidedOps (newQuizEngine sampleBank)"
  by (simp add: guidedOps_def newQuizEngine_def initializeSession_def sampleBank_def
      sampleQuestion_def answerQuestion_def getNextQuestion_def Let_def shouldTerminateEarly_def
      MAXIMUM_QUESTIONS_def MINIMUM_QUESTIONS_def)

lemma guided_next:
  "fst (getNextQuestion (newQuizEngine sampleBank)) = Some (sampleQuestion ''0'')"
  by (simp add: newQuizEngine_def initializeSession_def sampleBank_def
      getNextQuestion_def Let_def shouldTerminateEarly_def MINIMUM_QUESTIONS_def)

section \<open>Claims\<close>



text \<open>
  C2. For all integer totals, \<open>determineArchetype\<close> returns \<open>Neutral\<close> exactly when both
  absolute totals are below 2; otherwise it returns the quadrant given by the signs of the
  two totals, a total of 0 counting as the positive pole (Thinking, Judging); and equal
  totals give equal labels.
\<close>

theorem determineArchetype_classifies:
  "(determineArchetype a b = Neutral \<longleftrightarrow> \<bar>a\<bar> < 2 \<and> \<bar>b\<bar> < 2) \<and>
   (determineArchetype a b = TJ \<longleftrightarrow> \<not> (\<bar>a\<bar> < 2 \<and> \<bar>b\<bar> < 2) \<and> 0 \<le> a \<and> 0 \<le> b) \<and>
   (determineArchetype a b = TP \<longleftrightarrow> \<not> (\<bar>a\<bar> < 2 \<and> \<bar>b\<bar> < 2) \<and> 0 \<le> a \<and> b < 0) \<and>
   (determineArchetype a b = FJ \<longleftrightarrow> \<not> (\<bar>a\<bar> < 2 \<and> \<bar>b\<bar> < 2) \<and> a < 0 \<and> 0 \<le> b) \<and>
   (determineArchetype a b = FP \<longleftrightarrow> \<not> (\<bar>a\<bar> < 2 \<and> \<bar>b\<bar> < 2) \<and> a < 0 \<and> b < 0) \<and>
   (a = a' \<and> b = b' \<longrightarrow> determineArchetype a b = determineArchetype a' b')"
  by (auto simp add: determineArchetype_def Let_def)

theorem determineArchetype_classifies_witness:
  "determineArchetype 1 1 = Neutral \<and> determineArchetype 2 0 = TJ \<and>
   determineArchetype 0 (-2) = TP \<and> determineArchetype (-2) 0 = FJ \<and>
   determineArchetype (-3) (-1) = FP"
  using determineArchetype_classifies [of 1 1 1 1] determineArchetype_classifies [of 2 0 2 0]
    determineArchetype_classifies [of 0 "-2" 0 "-2"] determineArchetype_classifies [of "-2" 0 "-2" 0]
    determineArchetype_classifies [of "-3" "-1" "-3" "-1"]
  by simp

text \<open>
  C3 as stated: in every state reached by public operations the responses hold at most one
  response for each question id. \<open>answerQuestion\<close> has no check for a question that was
  answered before: answering \<open>q0\<close> twice records two responses for \<open>q0\<close>.
\<close>

theorem repeated_answer_counterexample:
  "map questionId (responses (session (run repeatedOps (newQuizEngine sampleBank)))) = [''q0'', ''q0''] \<and>
   \<not> distinct (map questionId (responses (session (run repeatedOps (newQuizEngine sampleBank)))))"
  by (simp add: run_def repeatedOps_def newQuizEngine_def initializeSession_def sampleBank_def
      sampleQuestion_def answerQuestion_def Let_def shouldTerminateEarly_def
      MAXIMUM_QUESTIONS_def MINIMUM_QUESTIONS_def)

text \<open>
  C3, amended. In every state reached from a new engine by a run of \<open>getNextQuestion\<close>,
  \<open>answerQuestion\<close> and \<open>reset\<close> in which each call of \<open>answerQuestion\<close> names a question
  that has no response yet, the responses hold at most one response for each question id;
  and a question returned by \<open>getNextQuestion\<close> is always such a question.
\<close>

theorem fresh_answers_one_response_per_question:
  "(answersFresh ops (newQuizEngine qs) \<longrightarrow>
      distinct (map questionId (responses (session (run ops (newQuizEngine qs)))))) \<and>
   (\<forall>qu. fst (getNextQuestion e) = Some qu \<longrightarrow>
      question_id qu \<notin> set (map questionId (responses (session e))))"
proof -
  have "distinct (map questionId (responses (session (newQuizEngine qs))))"
    by (simp add: newQuizEngine_def initializeSession_def)
  then show ?thesis using distinct_run getNextQuestion_fresh by blast
qed

theorem fresh_answers_one_response_per_question_witness:
  "answersFresh guidedOps (newQuizEngine sampleBank) \<and>
   distinct (map questionId (responses (session (run guidedOps (newQuizEngine sampleBank))))) \<and>
   fst (getNextQuestion (newQuizEngine sampleBank)) = Some (sampleQuestion ''0'') \<and>
   question_id (sampleQuestion ''0'') \<notin> set (map questionId (responses (session (newQuizEngine sampleBank))))"
  using fresh_answers_one_response_per_question [of guidedOps sampleBank "newQuizEngine sampleBank"]
    guided_fresh guided_next
  by blast

text \<open>
  C4. \<open>answerQuestion\<close> throws at its first \<open>throw\<close> (quiz already complete) exactly when
  the session is complete; at its second (question not found) exactly when the session is
  not complete and no question of the bank has the given id; at its third (answer not
  found) exactly when the session is not complete, the bank has a question of that id, the
  first one in bank order, and none of its answers has the given answer id; and whenever it
  throws, the engine is the one it was called on.
\<close>

theorem answerQuestion_rejections:
  "(fst (answerQuestion q a t e) = Inl QuizAlreadyComplete \<longleftrightarrow> isComplete (session e)) \<and>
   ((\<exists>x. fst (answerQuestion q a t e) = Inl (QuestionNotFound x)) \<longleftrightarrow>
      \<not> isComplete (session e) \<and> q \<notin> question_id ` set (questions e)) \<and>
   ((\<exists>x y. fst (answerQuestion q a t e) = Inl (AnswerNotFound x y)) \<longleftrightarrow>
      \<not> isComplete (session e) \<and>
      (\<exists>qu. find (\<lambda>x. question_id x = q) (questions e) = Some qu \<and>
            a \<notin> answer_id ` set (answers qu))) \<and>
   (\<forall>err. fst (answerQuestion q a t e) = Inl err \<longrightarrow> snd (answerQuestion q a t e) = e)"
proof (cases "isComplete (session e)")
  case True
  then show ?thesis by (simp add: answerQuestion_complete)
next
  case nc: False
  show ?thesis
  proof (cases "find (\<lambda>x. question_id x = q) (questions e)")
    case None
    then have "q \<notin> question_id ` set (questions e)" by (auto simp add: find_None_iff)
    then show ?thesis using nc None by (simp add: answerQuestion_noq)
  next
    case (Some qu)
    then have in_bank: "q \<in> question_id ` set (questions e)" by (auto simp add: find_Some_iff)
    show ?thesis
    proof (cases "find (\<lambda>x. answer_id x = a) (answers qu)")
      case None
      then have "a \<notin> answer_id ` set (answers qu)" by (auto simp add: find_None_iff)
      then show ?thesis using nc Some None in_bank by (simp add: answerQuestion_noa)
    next
      case an: (Some an)
      then have "a \<in> answer_id ` set (answers qu)" by (auto simp add: find_Some_iff)
      then show ?thesis using nc Some in_bank by (simp add: answerQuestion_ok[OF nc Some an])
    qed
  qed
qed

theorem answerQuestion_rejections_witness:
  "\<not> isComplete (session (newQuizEngine sampleBank)) \<and>
   ''zz'' \<notin> question_id ` set (questions (newQuizEngine sampleBank)) \<and>
   (\<exists>x. fst (answerQuestion ''zz'' ''a0'' 100 (newQuizEngine sampleBank)) = Inl (QuestionNotFound x)) \<and>
   snd (answerQuestion ''zz'' ''a0'' 100 (newQuizEngine sampleBank)) = newQuizEngine sampleBank \<and>
   find (\<lambda>x. question_id x = ''q0'') (questions (newQuizEngine sampleBank)) = Some (sampleQuestion ''0'') \<and>
   ''a1'' \<notin> answer_id ` set (answers (sampleQuestion ''0'')) \<and>
   (\<exists>x y. fst (answerQuestion ''q0'' ''a1'' 100 (newQuizEngine sampleBank)) = Inl (AnswerNotFound x y)) \<and>
   snd (answerQuestion ''q0'' ''a1'' 100 (newQuizEngine sampleBank)) = newQuizEngine sampleBank \<and>
   isComplete (session (run strongOps (newQuizEngine sampleBank))) \<and>
   fst (answerQuestion ''q5'' ''a5'' 105 (run strongOps (newQuizEngine sampleBank))) = Inl QuizAlreadyComplete \<and>
   snd (answerQuestion ''q5'' ''a5'' 105 (run strongOps (newQuizEngine sampleBank)))
     = run strongOps (newQuizEngine sampleBank)"
proof -
  have h5: "isComplete (session (run strongOps (newQuizEngine sampleBank)))" by code_simp
  have h1: "\<not> isComplete (session (newQuizEngine sampleBank))"
    by (simp add: newQuizEngine_def initializeSession_def)
  have h2: "''zz'' \<notin> question_id ` set (questions (newQuizEngine sampleBank))"
    by (simp add: newQuizEngine_def sampleBank_def sampleQuestion_def)
  have h3: "find (\<lambda>x. question_id x = ''q0'') (questions (newQuizEngine sampleBank)) = Some (sampleQuestion ''0'')"
    by (simp add: newQuizEngine_def sampleBank_def sampleQuestion_def)
  have h4: "''a1'' \<notin> answer_id ` set (answers (sampleQuestion ''0''))"
    by (simp add: sampleQuestion_def)
  show ?thesis
    using answerQuestion_rejections [of "''zz''" "''a0''" 100 "newQuizEngine sampleBank"]
      answerQuestion_rejections [of "''q0''" "''a1''" 100 "newQuizEngine sampleBank"]
      answerQuestion_rejections [of "''q5''" "''a5''" 105 "run strongOps (newQuizEngine sampleBank)"]
      h1 h2 h3 h4 h5
    by blast
qed



text \<open>
  C6. Two sequences of calls that agree on every (question id, answer id) pair, whatever
  their timestamps: running the first on a new engine, calling \<open>reset\<close>, and running the
  second gives the same outcome (accepted, or the same error) and the same running totals,
  confidence, archetype and completion flag as the first run.
\<close>

theorem replay_after_reset_is_deterministic:
  assumes "map (\<lambda>(q, a, t). (q, a)) calls1 = map (\<lambda>(q, a, t). (q, a)) calls2"
  shows "fst (answerAll calls2 (reset (snd (answerAll calls1 (newQuizEngine qs)))))
           = fst (answerAll calls1 (newQuizEngine qs)) \<and>
         currentScoreTF (session (snd (answerAll calls2 (reset (snd (answerAll calls1 (newQuizEngine qs)))))))
           = currentScoreTF (session (snd (answerAll calls1 (newQuizEngine qs)))) \<and>
         currentScoreJP (session (snd (answerAll calls2 (reset (snd (answerAll calls1 (newQuizEngine qs)))))))
           = currentScoreJP (session (snd (answerAll calls1 (newQuizEngine qs)))) \<and>
         getConfidence (snd (answerAll calls2 (reset (snd (answerAll calls1 (newQuizEngine qs))))))
           = getConfidence (snd (answerAll calls1 (newQuizEngine qs))) \<and>
         getArchetype (snd (answerAll calls2 (reset (snd (answerAll calls1 (newQuizEngine qs))))))
           = getArchetype (snd (answerAll calls1 (newQuizEngine qs))) \<and>
         isComplete (session (snd (answerAll calls2 (reset (snd (answerAll calls1 (newQuizEngine qs)))))))
           = isComplete (session (snd (answerAll calls1 (newQuizEngine qs))))"
proof -
  have "coreInv qs (snd (answerAll calls1 (newQuizEngine qs)))"
    using coreInv_new by (rule coreInv_answerAll)
  then have r: "reset (snd (answerAll calls1 (newQuizEngine qs))) = newQuizEngine qs"
    by (rule reset_reachable)
  have "agree (newQuizEngine qs) (newQuizEngine qs)" by (simp add: agree_def)
  from agree_answerAll[OF this assms]
  show ?thesis unfolding r by (simp add: agree_def getConfidence_def getArchetype_def)
qed

theorem replay_after_reset_is_deterministic_witness:
  "map (\<lambda>(q, a, t). (q, a)) strongCalls = map (\<lambda>(q, a, t). (q, a)) strongCallsLater \<and>
   strongCalls \<noteq> strongCallsLater \<and>
   fst (answerAll strongCallsLater (reset (snd (answerAll strongCalls (newQuizEngine sampleBank)))))
     = fst (answerAll strongCalls (newQuizEngine sampleBank)) \<and>
   currentScoreTF (session (snd (answerAll strongCallsLater (reset (snd (answerAll strongCalls (newQuizEngine sampleBank)))))))
     = currentScoreTF (session (snd (answerAll strongCalls (newQuizEngine sampleBank)))) \<and>
   currentScoreJP (session (snd (answerAll strongCallsLater (reset (snd (answerAll strongCalls (newQuizEngine sampleBank)))))))
     = currentScoreJP (session (snd (answerAll strongCalls (newQuizEngine sampleBank)))) \<and>
   getConfidence (snd (answerAll strongCallsLater (reset (snd (answerAll strongCalls (newQuizEngine sampleBank))))))
     = getConfidence (snd (answerAll strongCalls (newQuizEngine sampleBank))) \<and>
   getArchetype (snd (answerAll strongCallsLater (reset (snd (answerAll strongCalls (newQuizEngine sampleBank))))))
     = getArchetype (snd (answerAll strongCalls (newQuizEngine sampleBank)))"
proof -
  have h: "map (\<lambda>(q, a, t). (q, a)) strongCalls = map (\<lambda>(q, a, t). (q, a)) strongCallsLater"
    by (simp add: strongCalls_def strongCallsLater_def)
  have d: "strongCalls \<noteq> strongCallsLater"
    by (simp add: strongCalls_def strongCallsLater_def)
  show ?thesis
    using replay_after_reset_is_deterministic [OF h, of sampleBank] h d by blast
qed



text \<open>
  C8. In every state reached from a new engine by any run of operations, the number of
  responses is at most \<open>MAXIMUM_QUESTIONS\<close>; the session is complete exactly when that
  number is \<open>MAXIMUM_QUESTIONS\<close> or the early-termination test holds of the running totals,
  so a run in which that test never holds completes exactly on its tenth response. A
  session that is not complete has no archetype; a complete one has the archetype that
  \<open>determineArchetype\<close> gives for the totals summed over its responses, which are the
  running totals when the answer ids of the bank are unique.
\<close>

theorem completion_at_maximum:
  "int (length (responses (session (run ops (newQuizEngine qs))))) \<le> MAXIMUM_QUESTIONS \<and>
   (isComplete (session (run ops (newQuizEngine qs))) \<longleftrightarrow>
      int (length (responses (session (run ops (newQuizEngine qs))))) = MAXIMUM_QUESTIONS \<or>
      (MINIMUM_QUESTIONS \<le> int (length (responses (session (run ops (newQuizEngine qs))))) \<and>
       CONFIDENCE_THRESHOLD \<le>
         calculateConfidence (currentScoreTF (session (run ops (newQuizEngine qs))))
           (currentScoreJP (session (run ops (newQuizEngine qs))))
           (int (length (responses (session (run ops (newQuizEngine qs)))))))) \<and>
   (\<not> isComplete (session (run ops (newQuizEngine qs))) \<longrightarrow>
      \<not> shouldTerminateEarly (run ops (newQuizEngine qs)) \<and>
      getArchetype (run ops (newQuizEngine qs)) = None) \<and>
   (isComplete (session (run ops (newQuizEngine qs))) \<longrightarrow>
      getArchetype (run ops (newQuizEngine qs)) =
        Some (determineArchetype
               (fst (sumScores (responses (session (run ops (newQuizEngine qs))))
                      (answerLookup (run ops (newQuizEngine qs))) (0, 0)))
               (snd (sumScores (responses (session (run ops (newQuizEngine qs))))
                      (answerLookup (run ops (newQuizEngine qs))) (0, 0)))) \<and>
      (distinct (answerIds qs) \<longrightarrow>
         getArchetype (run ops (newQuizEngine qs)) =
           Some (determineArchetype (currentScoreTF (session (run ops (newQuizEngine qs))))
                  (currentScoreJP (session (run ops (newQuizEngine qs)))))))"
proof -
  let ?e = "run ops (newQuizEngine qs)"
  have flow: "flowInv ?e" using flowInv_new by (rule flowInv_run)
  have core: "coreInv qs ?e" using coreInv_new by (rule coreInv_run)
  have ne: "isComplete (session ?e) \<Longrightarrow> responses (session ?e) \<noteq> []"
    using flow by (auto simp add: flowInv_def Let_def MAXIMUM_QUESTIONS_def MINIMUM_QUESTIONS_def)
  have a: "int (length (responses (session ?e))) \<le> MAXIMUM_QUESTIONS"
    using flow by (simp add: flowInv_def Let_def)
  have b: "isComplete (session ?e) \<longleftrightarrow>
      int (length (responses (session ?e))) = MAXIMUM_QUESTIONS \<or>
      (MINIMUM_QUESTIONS \<le> int (length (responses (session ?e))) \<and>
       CONFIDENCE_THRESHOLD \<le>
         calculateConfidence (currentScoreTF (session ?e)) (currentScoreJP (session ?e))
           (int (length (responses (session ?e)))))"
    using flow by (auto simp add: flowInv_def Let_def shouldTerminateEarly_def split: if_splits)
  have c: "\<not> isComplete (session ?e) \<Longrightarrow>
      \<not> shouldTerminateEarly ?e \<and> getArchetype ?e = None"
    using flow by (simp add: flowInv_def Let_def getArchetype_def)
  have d1: "isComplete (session ?e) \<Longrightarrow> getArchetype ?e =
        Some (determineArchetype
               (fst (sumScores (responses (session ?e)) (answerLookup ?e) (0, 0)))
               (snd (sumScores (responses (session ?e)) (answerLookup ?e) (0, 0))))"
    using flow ne
    by (simp add: flowInv_def Let_def getArchetype_def calculateArchetype_def split_beta)
  have d2: "isComplete (session ?e) \<Longrightarrow> distinct (answerIds qs) \<Longrightarrow> getArchetype ?e =
           Some (determineArchetype (currentScoreTF (session ?e)) (currentScoreJP (session ?e)))"
    using flow calculateArchetype_running(3)[OF _ core]
    by (simp add: flowInv_def Let_def getArchetype_def)
  show ?thesis using a b c d1 d2 by blast
qed

theorem completion_at_maximum_witness:
  "int (length (responses (session (run neutralOps (newQuizEngine sampleBank))))) = MAXIMUM_QUESTIONS \<and>
   isComplete (session (run neutralOps (newQuizEngine sampleBank))) \<and>
   getArchetype (run neutralOps (newQuizEngine sampleBank)) = Some Neutral \<and>
   distinct (answerIds sampleBank) \<and>
   getArchetype (run neutralOps (newQuizEngine sampleBank)) =
     Some (determineArchetype (currentScoreTF (session (run neutralOps (newQuizEngine sampleBank))))
            (currentScoreJP (session (run neutralOps (newQuizEngine sampleBank))))) \<and>
   \<not> isComplete (session (run (take 9 neutralOps) (newQuizEngine sampleBank))) \<and>
   \<not> shouldTerminateEarly (run (take 9 neutralOps) (newQuizEngine sampleBank)) \<and>
   getArchetype (run (take 9 neutralOps) (newQuizEngine sampleBank)) = None"
proof -
  have h1: "int (length (responses (session (run neutralOps (newQuizEngine sampleBank))))) = MAXIMUM_QUESTIONS"
    by code_simp
  have h2: "getArchetype (run neutralOps (newQuizEngine sampleBank)) = Some Neutral"
    by code_simp
  have h3: "\<not> isComplete (session (run (take 9 neutralOps) (newQuizEngine sampleBank)))"
    by code_simp
  show ?thesis
    using completion_at_maximum [of neutralOps sampleBank]
      completion_at_maximum [of "take 9 neutralOps" sampleBank] h1 h2 h3 sample_unique
    by blast
qed

text \<open>
  C9. In every state reached from a new engine by any run of operations, \<open>getProgress\<close> is
  the rounded percentage of \<open>MAXIMUM_QUESTIONS\<close> answered, that is ten times the number of
  responses, and lies between 0 and 100.
\<close>

theorem getProgress_percentage:
  "getProgress (run ops (newQuizEngine qs)) =
     Math_round ((of_int (getResponseCount (run ops (newQuizEngine qs))) / of_int MAXIMUM_QUESTIONS) * 100) \<and>
   getProgress (run ops (newQuizEngine qs)) = 10 * getResponseCount (run ops (newQuizEngine qs)) \<and>
   0 \<le> getProgress (run ops (newQuizEngine qs)) \<and>
   getProgress (run ops (newQuizEngine qs)) \<le> 100"
proof -
  let ?e = "run ops (newQuizEngine qs)"
  have flow: "flowInv ?e" using flowInv_new by (rule flowInv_run)
  have n: "int (length (responses (session ?e))) \<le> 10"
    using flow by (simp add: flowInv_def Let_def MAXIMUM_QUESTIONS_def)
  have r: "Math_round ((of_int k / 10) * 100) = 10 * k" for k :: int
    unfolding Math_round_def by (rule floor_unique) simp_all
  show ?thesis using n r[of "int (length (responses (session ?e)))"]
    by (simp add: getProgress_def getResponseCount_def MAXIMUM_QUESTIONS_def)
qed

theorem getProgress_percentage_witness:
  "getResponseCount (run guidedOps (newQuizEngine sampleBank)) = 2 \<and>
   getProgress (run guidedOps (newQuizEngine sampleBank)) = 20 \<and>
   getProgress (run neutralOps (newQuizEngine sampleBank)) \<le> 100"
proof -
  have h: "getResponseCount (run guidedOps (newQuizEngine sampleBank)) = 2" by code_simp
  show ?thesis
    using getProgress_percentage [of guidedOps sampleBank]
      getProgress_percentage [of neutralOps sampleBank] h
    by simp
qed

text \<open>
  C10. For a bank whose answer ids are unique, in every complete state reached from a new
  engine by any run of operations, the result that \<open>calculateArchetype\<close> recomputes from
  the responses through the answer lookup has the running totals as its scores, and the
  committed archetype and confidence are \<open>determineArchetype\<close> and \<open>calculateConfidence\<close>
  of the running totals.
\<close>

theorem committed_result_matches_running_totals:
  assumes "distinct (answerIds qs)"
    and "isComplete (session (run ops (newQuizEngine qs)))"
  shows "result_scoreTF (calculateArchetype (responses (session (run ops (newQuizEngine qs))))
                          (answerLookup (run ops (newQuizEngine qs))))
           = currentScoreTF (session (run ops (newQuizEngine qs))) \<and>
         result_scoreJP (calculateArchetype (responses (session (run ops (newQuizEngine qs))))
                          (answerLookup (run ops (newQuizEngine qs))))
           = currentScoreJP (session (run ops (newQuizEngine qs))) \<and>
         archetype (session (run ops (newQuizEngine qs)))
           = Some (result_archetype (calculateArchetype (responses (session (run ops (newQuizEngine qs))))
                          (answerLookup (run ops (newQuizEngine qs))))) \<and>
         archetype (session (run ops (newQuizEngine qs)))
           = Some (determineArchetype (currentScoreTF (session (run ops (newQuizEngine qs))))
                     (currentScoreJP (session (run ops (newQuizEngine qs))))) \<and>
         confidence (session (run ops (newQuizEngine qs)))
           = calculateConfidence (currentScoreTF (session (run ops (newQuizEngine qs))))
               (currentScoreJP (session (run ops (newQuizEngine qs))))
               (int (length (responses (session (run ops (newQuizEngine qs))))))"
proof -
  let ?e = "run ops (newQuizEngine qs)"
  have flow: "flowInv ?e" using flowInv_new by (rule flowInv_run)
  have core: "coreInv qs ?e" using coreInv_new by (rule coreInv_run)
  note r = calculateArchetype_running[OF assms(1) core]
  have f: "archetype (session ?e) = Some (result_archetype (calculateArchetype (responses (session ?e)) (answerLookup ?e)))"
    "confidence (session ?e) = result_confidence (calculateArchetype (responses (session ?e)) (answerLookup ?e))"
    using flow assms(2) by (simp_all add: flowInv_def Let_def)
  show ?thesis using r f by simp
qed

theorem committed_result_matches_running_totals_witness:
  "distinct (answerIds sampleBank) \<and>
   isComplete (session (run strongOps (newQuizEngine sampleBank))) \<and>
   result_scoreTF (calculateArchetype (responses (session (run strongOps (newQuizEngine sampleBank))))
                          (answerLookup (run strongOps (newQuizEngine sampleBank))))
     = currentScoreTF (session (run strongOps (newQuizEngine sampleBank))) \<and>
   result_scoreJP (calculateArchetype (responses (session (run strongOps (newQuizEngine sampleBank))))
                          (answerLookup (run strongOps (newQuizEngine sampleBank))))
     = currentScoreJP (session (run strongOps (newQuizEngine sampleBank))) \<and>
   archetype (session (run strongOps (newQuizEngine sampleBank)))
     = Some (determineArchetype (currentScoreTF (session (run strongOps (newQuizEngine sampleBank))))
               (currentScoreJP (session (run strongOps (newQuizEngine sampleBank)))))"
proof -
  have h: "isComplete (session (run strongOps (newQuizEngine sampleBank)))" by code_simp
  show ?thesis
    using committed_result_matches_running_totals [OF sample_unique h] sample_unique h by blast
qed

end
